theory Spec2Isabelle
  imports Main "HOL-Library.Word"
begin

unbundle bit_operations_syntax

section \<open>Data model\<close>

text \<open>
  A Python \<open>str\<close> is a sequence of code points, a Python \<open>bytes\<close> object a sequence
  of 8-bit values. Python integers are unbounded; the ones of the cipher are never
  negative.
\<close>

type_synonym byte = "8 word"
type_synonym pystr = "nat list"
type_synonym pybytes = "byte list"

text \<open>The socket errors that \<open>except socket.error\<close> (an alias of \<open>OSError\<close>) catches.\<close>

datatype sock_err = ConnectionRefused | HostUnreachable | ConnectTimeout | ConnectionReset | BrokenPipe

text \<open>
  The exceptions the program can meet. All but \<open>KeyboardInterrupt\<close> are subclasses of
  \<open>Exception\<close>; only \<open>OSError\<close> is a socket error.
\<close>

datatype exn = OSError sock_err | ValueError | StructError | JSONDecodeError | KeyError
  | TypeError | OverflowError | KeyboardInterrupt

fun is_socket_error :: "exn \<Rightarrow> bool" where
  "is_socket_error (OSError _) = True"
| "is_socket_error _ = False"

fun is_Exception :: "exn \<Rightarrow> bool" where
  "is_Exception KeyboardInterrupt = False"
| "is_Exception _ = True"

section \<open>The cipher and the frame\<close>

text \<open>\<open>pack(">I", n)\<close>: four bytes, most significant first; \<open>struct.error\<close> beyond 32 bits.\<close>

definition pack_I :: "nat \<Rightarrow> exn + pybytes" where
  "pack_I n =
     (if n < 2 ^ 32
      then Inr [of_nat (n div 2 ^ 24), of_nat (n div 2 ^ 16), of_nat (n div 2 ^ 8), of_nat n]
      else Inl StructError)"

text \<open>
  The loop of \<open>encrypt\<close>: \<open>a = key ^ ord(i); key = a; result += bytes([a])\<close>.
  \<open>bytes([a])\<close> raises \<open>ValueError\<close> when \<open>a\<close> is above 255.
\<close>

fun encrypt_loop :: "nat \<Rightarrow> pybytes \<Rightarrow> pystr \<Rightarrow> exn + pybytes" where
  "encrypt_loop key result [] = Inr result"
| "encrypt_loop key result (i # string) =
     (let a = key XOR i
      in if a > 255 then Inl ValueError
         else encrypt_loop a (result @ [of_nat a]) string)"

definition encrypt :: "pystr \<Rightarrow> exn + pybytes" where
  "encrypt string =
     (case pack_I (length string) of
        Inl e \<Rightarrow> Inl e
      | Inr result \<Rightarrow> encrypt_loop 171 result string)"

text \<open>The loop of \<open>decrypt\<close>: \<open>a = key ^ i; key = i; result += chr(a)\<close>.\<close>

fun decrypt_loop :: "byte \<Rightarrow> pystr \<Rightarrow> pybytes \<Rightarrow> pystr" where
  "decrypt_loop key result [] = result"
| "decrypt_loop key result (i # string) =
     (let a = key XOR i
      in decrypt_loop i (result @ [unat a]) string)"

definition decrypt :: "pybytes \<Rightarrow> pystr" where
  "decrypt string = decrypt_loop 171 [] string"

text \<open>
  The algorithm in the words of the specification, on bytes: the key starts at \<open>k\<close>,
  \<open>c\<^sub>i = p\<^sub>i XOR k\<^sub>i\<^sub>-\<^sub>1\<close> and \<open>k\<^sub>i = c\<^sub>i\<close>; for decryption
  \<open>p\<^sub>i = c\<^sub>i XOR k\<^sub>i\<^sub>-\<^sub>1\<close> with the same key update.
\<close>

fun autokey_encrypt :: "byte \<Rightarrow> pybytes \<Rightarrow> pybytes" where
  "autokey_encrypt k [] = []"
| "autokey_encrypt k (p # ps) = (let c = p XOR k in c # autokey_encrypt c ps)"

fun autokey_decrypt :: "byte \<Rightarrow> pybytes \<Rightarrow> pybytes" where
  "autokey_decrypt k [] = []"
| "autokey_decrypt k (c # cs) = (let p = c XOR k in p # autokey_decrypt c cs)"

text \<open>Reading four bytes as a big-endian unsigned number, the inverse of \<open>pack(">I", n)\<close>.\<close>

definition unpack_I :: "pybytes \<Rightarrow> nat" where
  "unpack_I bs = foldl (\<lambda>n b. n * 256 + unat b) 0 bs"

text \<open>A string literal of the source as a Python string.\<close>

abbreviation py :: "string \<Rightarrow> pystr" where
  "py s \<equiv> map of_char s"

text \<open>The predefined commands, a dictionary from names to JSON texts.\<close>

definition commands :: "string \<Rightarrow> pystr option" where
  \<open>commands = map_of
     [(''info'', py ''{"system":{"get_sysinfo":{}}}''),
      (''on'', py ''{"system":{"set_relay_state":{"state":1}}}''),
      (''off'', py ''{"system":{"set_relay_state":{"state":0}}}''),
      (''ledoff'', py ''{"system":{"set_led_off":{"off":1}}}''),
      (''ledon'', py ''{"system":{"set_led_off":{"off":0}}}''),
      (''cloudinfo'', py ''{"cnCloud":{"get_info":{}}}''),
      (''wlanscan'', py ''{"netif":{"get_scaninfo":{"refresh":0}}}''),
      (''time'', py ''{"time":{"get_time":{}}}''),
      (''schedule'', py ''{"schedule":{"get_rules":{}}}''),
      (''countdown'', py ''{"count_down":{"get_rules":{}}}''),
      (''antitheft'', py ''{"anti_theft":{"get_rules":{}}}''),
      (''reboot'', py ''{"system":{"reboot":{"delay":1}}}''),
      (''reset'', py ''{"system":{"reset":{"delay":1}}}''),
      (''energy'', py ''{"emeter":{"get_realtime":{}}}'')]\<close>

text \<open>\<open>commands["time"]\<close>, the time query.\<close>

abbreviation time_query :: pystr where
  \<open>time_query \<equiv> py ''{"time":{"get_time":{}}}''\<close>

section \<open>Transport\<close>

text \<open>
  The parsed command line, as far as \<open>send_command\<close> reads it: \<open>args.timeout\<close> is used
  only in \<open>sock_tcp.settimeout(int(args.timeout))\<close>, which raises \<open>ValueError\<close> for a
  text that is no integer or for a negative value and \<open>OverflowError\<close> for one too large.
  The field holds the exception of that statement, \<open>None\<close> for a usable timeout such as
  the default 10.
\<close>

record args =
  settimeout_error :: "exn option"

text \<open>
  What the outside world does during one call of \<open>send_command\<close>: for each call into
  the socket library the exception it raises, if any, and for \<open>recv\<close> the bytes that
  have arrived otherwise. A call that is not reached does not read its field.
\<close>

record network =
  socket_error :: "exn option"
  connect_error :: "exn option"
  send_error :: "exn option"
  recv_result :: "exn + pybytes"
  close_error :: "exn option"

text \<open>A \<open>datetime\<close> object: \<open>datetime.now()\<close> and \<open>datetime(year, ..., second)\<close>.\<close>

record datetime =
  year :: int
  month :: int
  day :: int
  hour :: int
  minute :: int
  second :: int
  microsecond :: int

text \<open>The lines the program logs, by their format string and the values put in.\<close>

datatype log_line =
    Could_not_connect pystr int
  | Old_time datetime
  | New_time datetime
  | Reply "pystr option"
  | Time_ok_bypass

text \<open>
  The trace of a run: the calls into the socket library, the log and the sleeps, in order.
  \<open>Call_settimeout\<close> marks the statement \<open>sock_tcp.settimeout(int(args.timeout))\<close>
  being reached: when \<open>int\<close> raises there, \<open>settimeout\<close> itself is not entered.
\<close>

datatype event =
    Call_socket
  | Call_settimeout
  | Call_connect pystr int
  | Call_settimeout_None
  | Call_send pybytes
  | Call_recv nat
  | Call_close
  | Call_sleep nat
  | Log_error log_line
  | Log_info log_line
  | Log_exception exn

text \<open>The \<open>try\<close> block of \<open>send_command\<close>; \<open>Inl\<close> is the exception that leaves it.\<close>

definition send_command_try ::
  "args \<Rightarrow> pystr \<Rightarrow> int \<Rightarrow> pystr \<Rightarrow> network \<Rightarrow> (exn + pystr) \<times> event list" where
  "send_command_try args ip port cmd net =
     (let t1 = [Call_socket];
          t2 = t1 @ [Call_settimeout];
          t3 = t2 @ [Call_connect ip port];
          t4 = t3 @ [Call_settimeout_None]
      in case socket_error net of Some e \<Rightarrow> (Inl e, t1) | None \<Rightarrow>
        (case settimeout_error args of Some e \<Rightarrow> (Inl e, t2) | None \<Rightarrow>
        (case connect_error net of Some e \<Rightarrow> (Inl e, t3) | None \<Rightarrow>
        (case encrypt cmd of Inl e \<Rightarrow> (Inl e, t4) | Inr msg \<Rightarrow>
        (case send_error net of Some e \<Rightarrow> (Inl e, t4 @ [Call_send msg]) | None \<Rightarrow>
        (case recv_result net of
           Inl e \<Rightarrow> (Inl e, t4 @ [Call_send msg, Call_recv 2048])
         | Inr arrived \<Rightarrow>
            (let data = take 2048 arrived
             in case close_error net of
                  Some e \<Rightarrow> (Inl e, t4 @ [Call_send msg, Call_recv 2048, Call_close])
                | None \<Rightarrow>
                    (Inr (decrypt (drop 4 data)),
                     t4 @ [Call_send msg, Call_recv 2048, Call_close]))))))))"

text \<open>
  \<open>send_command\<close>: \<open>except socket.error\<close> logs and returns \<open>None\<close>; any other
  exception leaves the function.
\<close>

definition send_command ::
  "args \<Rightarrow> pystr \<Rightarrow> int \<Rightarrow> pystr \<Rightarrow> network \<Rightarrow> (exn + pystr option) \<times> event list" where
  "send_command args ip port cmd net =
     (case send_command_try args ip port cmd net of
        (Inr decrypted, tr) \<Rightarrow> (Inr (Some decrypted), tr)
      | (Inl e, tr) \<Rightarrow>
          if is_socket_error e
          then (Inr None, tr @ [Log_error (Could_not_connect ip port)])
          else (Inl e, tr))"

text \<open>The number of calls of \<open>send_command\<close> in a trace: each starts with \<open>socket.socket\<close>.\<close>

definition send_command_calls :: "event list \<Rightarrow> nat" where
  "send_command_calls tr = length (filter (\<lambda>ev. ev = Call_socket) tr)"

section \<open>Time synchronisation\<close>

text \<open>
  The value \<open>json.loads\<close> returns. The parser belongs to the Python library and is a
  parameter of the model; a float is never read, only told from an integer.
\<close>

datatype json = JNull | JBool bool | JInt int | JFloat | JStr pystr
  | JArr "json list" | JObj "(pystr \<times> json) list"

text \<open>\<open>obj[key]\<close> with a string key: \<open>KeyError\<close> on a dictionary without it, \<open>TypeError\<close> on any other value.\<close>

fun getitem :: "json \<Rightarrow> pystr \<Rightarrow> exn + json" where
  "getitem (JObj kvs) k = (case map_of kvs k of None \<Rightarrow> Inl KeyError | Some v \<Rightarrow> Inr v)"
| "getitem _ k = Inl TypeError"

text \<open>
  An argument of \<open>datetime(...)\<close>: an integer (or a boolean, which is one) that fits a
  C \<open>int\<close>.
\<close>

fun as_c_int :: "json \<Rightarrow> exn + int" where
  "as_c_int (JInt n) = (if - (2 ^ 31) \<le> n \<and> n < 2 ^ 31 then Inr n else Inl OverflowError)"
| "as_c_int (JBool b) = Inr (if b then 1 else 0)"
| "as_c_int _ = Inl TypeError"

text \<open>
  The calendar of Python's \<open>datetime\<close> module: leap years, the days of a month, and the
  ordinal of a date, counted from 1 January of year 1.
\<close>

definition is_leap :: "int \<Rightarrow> bool" where
  "is_leap y = (y mod 4 = 0 \<and> (y mod 100 \<noteq> 0 \<or> y mod 400 = 0))"

definition days_in_month :: "int \<Rightarrow> int \<Rightarrow> int" where
  "days_in_month y m =
     (if m = 2 \<and> is_leap y then 29
      else [31, 28, 31, 30, 31, 30, 31, 31, 30, 31, 30, 31] ! nat (m - 1))"

definition days_before_year :: "int \<Rightarrow> int" where
  "days_before_year y = (y - 1) * 365 + (y - 1) div 4 - (y - 1) div 100 + (y - 1) div 400"

definition days_before_month :: "int \<Rightarrow> int \<Rightarrow> int" where
  "days_before_month y m =
     [0, 31, 59, 90, 120, 151, 181, 212, 243, 273, 304, 334] ! nat (m - 1)
       + (if m > 2 \<and> is_leap y then 1 else 0)"

definition ymd2ord :: "int \<Rightarrow> int \<Rightarrow> int \<Rightarrow> int" where
  "ymd2ord y m d = days_before_year y + days_before_month y m + d"

text \<open>The fields a \<open>datetime\<close> object can have.\<close>

definition valid_datetime :: "datetime \<Rightarrow> bool" where
  "valid_datetime t =
     (1 \<le> year t \<and> year t \<le> 9999 \<and> 1 \<le> month t \<and> month t \<le> 12 \<and>
      1 \<le> day t \<and> day t \<le> days_in_month (year t) (month t) \<and>
      0 \<le> hour t \<and> hour t \<le> 23 \<and> 0 \<le> minute t \<and> minute t \<le> 59 \<and>
      0 \<le> second t \<and> second t \<le> 59 \<and> 0 \<le> microsecond t \<and> microsecond t \<le> 999999)"

text \<open>The constructor \<open>datetime(year, month, day, hour, minute, second)\<close>.\<close>

definition datetime_new :: "int \<Rightarrow> int \<Rightarrow> int \<Rightarrow> int \<Rightarrow> int \<Rightarrow> int \<Rightarrow> exn + datetime" where
  "datetime_new y m d hh mm ss =
     (let t = \<lparr>year = y, month = m, day = d, hour = hh, minute = mm, second = ss,
                microsecond = 0\<rparr>
      in if valid_datetime t then Inr t else Inl ValueError)"

text \<open>
  \<open>(a - b)\<close> in microseconds. \<open>total_seconds()\<close> is this number divided by \<open>10**6\<close>,
  rounded correctly to a float, and Python compares a float with the integer 60
  exactly, so \<open>abs((a - b).total_seconds()) > 60\<close> holds exactly when the absolute
  value of this number is above 60000000.
\<close>

definition total_microseconds :: "datetime \<Rightarrow> datetime \<Rightarrow> int" where
  "total_microseconds a b =
     ((ymd2ord (year a) (month a) (day a) - ymd2ord (year b) (month b) (day b)) * 86400
       + ((hour a * 3600 + minute a * 60 + second a)
          - (hour b * 3600 + minute b * 60 + second b))) * 1000000
     + (microsecond a - microsecond b)"

definition and_then :: "exn + 'a \<Rightarrow> ('a \<Rightarrow> exn + 'b) \<Rightarrow> exn + 'b" where
  "and_then r f = (case r of Inl e \<Rightarrow> Inl e | Inr v \<Rightarrow> f v)"

text \<open>
  \<open>rsp = json.loads(rsp)["time"]["get_time"]\<close> and
  \<open>datetime(rsp["year"], rsp["month"], rsp["mday"], rsp["hour"], rsp["min"], rsp["sec"])\<close>:
  the subscripts are evaluated first, then the arguments are converted, then checked.
\<close>

definition time_remote :: "(pystr \<Rightarrow> exn + json) \<Rightarrow> pystr \<Rightarrow> exn + datetime" where
  "time_remote loads text =
     and_then (loads text) (\<lambda>j.
     and_then (getitem j (py ''time'')) (\<lambda>t.
     and_then (getitem t (py ''get_time'')) (\<lambda>rsp.
     and_then (getitem rsp (py ''year'')) (\<lambda>a1.
     and_then (getitem rsp (py ''month'')) (\<lambda>a2.
     and_then (getitem rsp (py ''mday'')) (\<lambda>a3.
     and_then (getitem rsp (py ''hour'')) (\<lambda>a4.
     and_then (getitem rsp (py ''min'')) (\<lambda>a5.
     and_then (getitem rsp (py ''sec'')) (\<lambda>a6.
     and_then (as_c_int a1) (\<lambda>y.
     and_then (as_c_int a2) (\<lambda>m.
     and_then (as_c_int a3) (\<lambda>d.
     and_then (as_c_int a4) (\<lambda>hh.
     and_then (as_c_int a5) (\<lambda>mm.
     and_then (as_c_int a6) (\<lambda>ss.
     datetime_new y m d hh mm ss)))))))))))))))"

text \<open>The decimal text of an integer, as \<open>json.dumps\<close> writes it.\<close>

fun digits :: "nat \<Rightarrow> pystr" where
  "digits n = (if n < 10 then [48 + n] else digits (n div 10) @ [48 + n mod 10])"

declare digits.simps [simp del]

definition str_int :: "int \<Rightarrow> pystr" where
  "str_int n = (if n < 0 then 45 # digits (nat (- n)) else digits (nat n))"

text \<open>
  \<open>json.dumps({"time":{"set_timezone":{"year":time.year, ..., "index":41}}})\<close>, with the
  separators \<open>", "\<close> and \<open>": "\<close> of \<open>json.dumps\<close>.
\<close>

definition set_timezone_cmd :: "datetime \<Rightarrow> pystr" where
  \<open>set_timezone_cmd t =
     py ''{"time": {"set_timezone": {"year": '' @ str_int (year t)
     @ py '', "month": '' @ str_int (month t)
     @ py '', "mday": '' @ str_int (day t)
     @ py '', "hour": '' @ str_int (hour t)
     @ py '', "min": '' @ str_int (minute t)
     @ py '', "sec": '' @ str_int (second t)
     @ py '', "index": 41}}}''\<close>

text \<open>\<open>if rsp:\<close> on the result of \<open>send_command\<close>: \<open>None\<close> and the empty string are false.\<close>

definition truthy :: "pystr option \<Rightarrow> bool" where
  "truthy rsp = (case rsp of None \<Rightarrow> False | Some text \<Rightarrow> text \<noteq> [])"

text \<open>
  What one cycle meets: the network during the time query, the clock read by
  \<open>datetime.now()\<close>, and the network during the correction, if one is sent.
\<close>

record cycle =
  query_net :: network
  now :: datetime
  set_net :: network

text \<open>The \<open>try\<close> block of \<open>update_time\<close>.\<close>

definition update_time_try ::
  "args \<Rightarrow> pystr \<Rightarrow> int \<Rightarrow> (pystr \<Rightarrow> exn + json) \<Rightarrow> cycle \<Rightarrow> (exn + unit) \<times> event list" where
  "update_time_try args ip port loads cyc =
     (case commands ''time'' of
        None \<Rightarrow> (Inl KeyError, [])
      | Some query \<Rightarrow>
         (case send_command args ip port query (query_net cyc) of
            (Inl e, tr) \<Rightarrow> (Inl e, tr)
          | (Inr rsp, tr) \<Rightarrow>
             if truthy rsp then
               (case rsp of
                  None \<Rightarrow> (Inr (), tr)
                | Some text \<Rightarrow>
                   (case time_remote loads text of
                      Inl e \<Rightarrow> (Inl e, tr)
                    | Inr remote \<Rightarrow>
                       (let time = now cyc
                        in if \<bar>total_microseconds remote time\<bar> > 60 * 1000000 then
                             (case send_command args ip port (set_timezone_cmd time) (set_net cyc) of
                                (Inl e, tr2) \<Rightarrow> (Inl e, tr @ tr2)
                              | (Inr decrypted, tr2) \<Rightarrow>
                                  (Inr (), tr @ tr2 @ [Log_info (Old_time remote),
                                     Log_info (New_time time), Log_info (Reply decrypted)]))
                           else (Inr (), tr @ [Log_info Time_ok_bypass]))))
             else (Inr (), tr)))"

text \<open>
  \<open>update_time\<close>: \<open>except Exception\<close> logs the exception and returns; the result is
  the exception that leaves the function, if any.
\<close>

definition update_time ::
  "args \<Rightarrow> pystr \<Rightarrow> int \<Rightarrow> (pystr \<Rightarrow> exn + json) \<Rightarrow> cycle \<Rightarrow> exn option \<times> event list" where
  "update_time args ip port loads cyc =
     (case update_time_try args ip port loads cyc of
        (Inr _, tr) \<Rightarrow> (None, tr)
      | (Inl e, tr) \<Rightarrow>
          if is_Exception e then (None, tr @ [Log_exception e]) else (Some e, tr))"

text \<open>
  \<open>while True: update_time(); sleep(5)\<close>, run for as many cycles as the list gives:
  \<open>Some e\<close> when the exception \<open>e\<close> ended the loop, \<open>None\<close> when every cycle of the
  list was run and the loop goes on.
\<close>

fun time_updater ::
  "args \<Rightarrow> pystr \<Rightarrow> int \<Rightarrow> (pystr \<Rightarrow> exn + json) \<Rightarrow> cycle list \<Rightarrow> exn option \<times> event list" where
  "time_updater args ip port loads [] = (None, [])"
| "time_updater args ip port loads (cyc # rest) =
     (case update_time args ip port loads cyc of
        (Some e, tr) \<Rightarrow> (Some e, tr)
      | (None, tr) \<Rightarrow>
          (case time_updater args ip port loads rest of
             (r, tr') \<Rightarrow> (r, tr @ [Call_sleep 5] @ tr')))"

text \<open>An exception option, or a result, that holds no exception outside \<open>Exception\<close>.\<close>

definition caught :: "exn option \<Rightarrow> bool" where
  "caught r = (case r of None \<Rightarrow> True | Some e \<Rightarrow> is_Exception e)"

text \<open>A network whose failures are all exceptions of the class \<open>Exception\<close>.\<close>

definition exogenous :: "network \<Rightarrow> bool" where
  "exogenous net =
     (caught (socket_error net) \<and> caught (connect_error net) \<and> caught (send_error net) \<and>
      (case recv_result net of Inl e \<Rightarrow> is_Exception e | Inr _ \<Rightarrow> True) \<and>
      caught (close_error net))"

section \<open>Example inputs\<close>

text \<open>A plug, a command line with the default timeout, networks, a clock and replies.\<close>

abbreviation plug_ip :: pystr where
  "plug_ip \<equiv> py ''192.168.0.10''"

abbreviation default_args :: args where
  "default_args \<equiv> \<lparr>settimeout_error = None\<rparr>"

abbreviation quiet_net :: network where
  "quiet_net \<equiv> \<lparr>socket_error = None, connect_error = None, send_error = None,
     recv_result = Inr [], close_error = None\<rparr>"

abbreviation refused_net :: network where
  "refused_net \<equiv> quiet_net\<lparr>connect_error := Some (OSError ConnectionRefused)\<rparr>"

abbreviation noon :: datetime where
  "noon \<equiv> \<lparr>year = 2024, month = 3, day = 1, hour = 12, minute = 0, second = 0,
     microsecond = 0\<rparr>"

abbreviation device_says :: "int \<Rightarrow> int \<Rightarrow> int \<Rightarrow> pystr \<Rightarrow> exn + json" where
  "device_says hh mm ss \<equiv> (\<lambda>text. Inr (JObj [(py ''time'', JObj [(py ''get_time'',
     JObj [(py ''year'', JInt 2024), (py ''month'', JInt 3), (py ''mday'', JInt 1),
       (py ''hour'', JInt hh), (py ''min'', JInt mm), (py ''sec'', JInt ss),
       (py ''err_code'', JInt 0)])])]))"

abbreviation loads_empty_object :: "pystr \<Rightarrow> exn + json" where
  "loads_empty_object \<equiv> (\<lambda>text. Inr (JObj []))"

abbreviation braces_net :: network where
  "braces_net \<equiv> quiet_net\<lparr>recv_result := Inr [0, 0, 0, 2, 208, 173]\<rparr>"

abbreviation braces_cycle :: cycle where
  "braces_cycle \<equiv> \<lparr>query_net = braces_net, now = noon, set_net = quiet_net\<rparr>"

abbreviation on_first_of_march :: "int \<Rightarrow> int \<Rightarrow> int \<Rightarrow> datetime" where
  "on_first_of_march hh mm ss \<equiv> \<lparr>year = 2024, month = 3, day = 1, hour = hh, minute = mm,
     second = ss, microsecond = 0\<rparr>"

section \<open>Properties of the cipher\<close>

lemma xor_lt_256: "(k::nat) < 256 \<Longrightarrow> c < 256 \<Longrightarrow> k XOR c < 256"
proof -
  assume a: "k < 256" "c < 256"
  then have "take_bit 8 k = k" "take_bit 8 c = c" by (simp_all add: take_bit_nat_eq_self)
  then have "take_bit 8 (k XOR c) = k XOR c" by (simp add: take_bit_xor)
  then have "k XOR c < 2 ^ 8" by (simp only: take_bit_nat_eq_self_iff)
  then show ?thesis by simp
qed

lemma encrypt_loop_autokey:
  "\<forall>c\<in>set s. c < 256 \<Longrightarrow> key < 256 \<Longrightarrow>
   encrypt_loop key acc s = Inr (acc @ autokey_encrypt (of_nat key) (map of_nat s))"
proof (induction s arbitrary: key acc)
  case Nil
  then show ?case by simp
next
  case (Cons i s)
  then have b: "key XOR i < 256" by (simp add: xor_lt_256)
  have "encrypt_loop key acc (i # s) = encrypt_loop (key XOR i) (acc @ [of_nat (key XOR i)]) s"
    using b by (simp add: Let_def)
  also have "\<dots> = Inr ((acc @ [of_nat (key XOR i)])
       @ autokey_encrypt (of_nat (key XOR i)) (map of_nat s))"
    using Cons.prems b by (intro Cons.IH) auto
  finally show ?case by (simp add: Let_def of_nat_xor_eq xor.commute)
qed

lemma decrypt_loop_autokey:
  "decrypt_loop key acc cs = acc @ map unat (autokey_decrypt key cs)"
  by (induction cs arbitrary: key acc) (simp_all add: Let_def xor.commute)

lemma autokey_roundtrip: "autokey_decrypt k (autokey_encrypt k ps) = ps"
  by (induction ps arbitrary: k) (simp_all add: Let_def xor.assoc)

lemma length_autokey_encrypt: "length (autokey_encrypt k ps) = length ps"
  by (induction ps arbitrary: k) (simp_all add: Let_def)

lemma length_autokey_decrypt: "length (autokey_decrypt k cs) = length cs"
  by (induction cs arbitrary: k) (simp_all add: Let_def)

lemma unat_of_nat_bytes:
  "\<forall>c\<in>set s. c < 256 \<Longrightarrow> map (unat \<circ> (of_nat :: nat \<Rightarrow> byte)) s = s"
  by (induction s) (simp_all add: unat_of_nat)

lemma encrypt_frame:
  assumes "\<forall>c\<in>set x. c < 256" and "length x < 2 ^ 32"
  shows "encrypt x = Inr ([of_nat (length x div 2 ^ 24), of_nat (length x div 2 ^ 16),
            of_nat (length x div 2 ^ 8), of_nat (length x)]
          @ autokey_encrypt 171 (map of_nat x))"
  using assms by (simp add: encrypt_def pack_I_def encrypt_loop_autokey)

lemma autokey_encrypt_nth:
  "i < length ps \<Longrightarrow>
   autokey_encrypt k ps ! i = ps ! i XOR (if i = 0 then k else autokey_encrypt k ps ! (i - 1))"
proof (induction ps arbitrary: k i)
  case Nil
  then show ?case by simp
next
  case (Cons p ps)
  show ?case
  proof (cases i)
    case 0
    then show ?thesis by (simp add: Let_def)
  next
    case (Suc j)
    then show ?thesis using Cons.prems Cons.IH[of j "p XOR k"]
      by (cases j) (simp_all add: Let_def)
  qed
qed

lemma autokey_decrypt_nth:
  "i < length cs \<Longrightarrow>
   autokey_decrypt k cs ! i = cs ! i XOR (if i = 0 then k else cs ! (i - 1))"
proof (induction cs arbitrary: k i)
  case Nil
  then show ?case by simp
next
  case (Cons c cs)
  show ?case
  proof (cases i)
    case 0
    then show ?thesis by (simp add: Let_def)
  next
    case (Suc j)
    then show ?thesis using Cons.prems Cons.IH[of j c]
      by (cases j) (simp_all add: Let_def)
  qed
qed

lemma big_endian_sum:
  "(n::nat) = 16777216 * (n div 16777216) + 65536 * (n div 65536 mod 256) +
     n div 256 mod 256 * 256 + n mod 256"
proof -
  have d: "n div 65536 = n div 256 div 256" "n div 16777216 = n div 65536 div 256"
    by (simp_all add: div_mult2_eq[symmetric])
  have a: "n = 256 * (n div 256) + n mod 256" by simp
  have b: "n div 256 = 256 * (n div 65536) + n div 256 mod 256" unfolding d by simp
  have c: "n div 65536 = 256 * (n div 16777216) + n div 65536 mod 256" unfolding d(2) by simp
  show ?thesis using a b c by linarith
qed

lemma unpack_I_pack:
  "n < 2 ^ 32 \<Longrightarrow>
   unpack_I [of_nat (n div 2 ^ 24), of_nat (n div 2 ^ 16), of_nat (n div 2 ^ 8), of_nat n] = n"
  using big_endian_sum[of n] by (simp add: unpack_I_def unat_of_nat)

lemma encrypt_wide_character: "encrypt [8364] = Inl ValueError"
  by (simp add: encrypt_def pack_I_def)

lemma encrypt_loop_extends:
  "encrypt_loop key acc s = Inr f \<Longrightarrow> \<exists>t. f = acc @ t"
proof (induction s arbitrary: key acc)
  case Nil
  then show ?case by simp
next
  case (Cons i s)
  from Cons.prems have "encrypt_loop (key XOR i) (acc @ [of_nat (key XOR i)]) s = Inr f"
    by (simp add: Let_def split: if_splits)
  from Cons.IH[OF this] show ?case by auto
qed

section \<open>Properties of the transport and of the time synchronisation\<close>

lemma send_command_calls_one:
  "send_command_calls (snd (send_command args ip port cmd net)) = 1"
  by (simp add: send_command_def send_command_try_def send_command_calls_def Let_def
      split: option.splits sum.splits prod.splits)

lemma send_command_calls_append:
  "send_command_calls (a @ b) = send_command_calls a + send_command_calls b"
  by (simp add: send_command_calls_def)

lemma commands_time: \<open>commands ''time'' = Some (py ''{"time":{"get_time":{}}}'')\<close>
  by (simp add: commands_def)

lemma encrypt_loop_error: "encrypt_loop key acc s = Inl e \<Longrightarrow> e = ValueError"
  by (induction s arbitrary: key acc) (auto simp: Let_def split: if_splits)

lemma encrypt_error: "encrypt x = Inl e \<Longrightarrow> is_Exception e"
  by (auto simp: encrypt_def pack_I_def split: sum.splits if_splits dest: encrypt_loop_error)

lemma send_command_error:
  assumes "exogenous net" and "caught (settimeout_error args)"
    and "fst (send_command args ip port cmd net) = Inl e"
  shows "is_Exception e"
  using assms
  by (auto simp: send_command_def send_command_try_def Let_def exogenous_def caught_def
      split: option.splits sum.splits if_splits dest: encrypt_error)

lemma getitem_error: "getitem j k = Inl e \<Longrightarrow> is_Exception e"
  by (cases j) (auto split: option.splits)

lemma as_c_int_error: "as_c_int j = Inl e \<Longrightarrow> is_Exception e"
  by (cases j) (auto split: if_splits)

lemma datetime_new_error: "datetime_new y m d hh mm ss = Inl e \<Longrightarrow> is_Exception e"
  by (auto simp: datetime_new_def Let_def split: if_splits)

lemma and_then_error:
  "and_then r f = Inl e \<Longrightarrow> (r = Inl e \<or> (\<exists>v. r = Inr v \<and> f v = Inl e))"
  by (cases r) (simp_all add: and_then_def)

lemma time_remote_error:
  assumes "\<forall>text e. loads text = Inl e \<longrightarrow> is_Exception e"
    and "time_remote loads text = Inl e"
  shows "is_Exception e"
  using assms(2) unfolding time_remote_def
  using assms(1)
  by (auto dest!: and_then_error dest: getitem_error as_c_int_error datetime_new_error)

lemma update_time_try_raise:
  assumes "fst (send_command args ip port time_query (query_net cyc)) = Inl e"
  shows "update_time_try args ip port loads cyc =
           (Inl e, snd (send_command args ip port time_query (query_net cyc)))"
  using assms
  by (cases "send_command args ip port time_query (query_net cyc)")
     (simp add: update_time_try_def commands_time)

lemma update_time_try_falsy:
  assumes "fst (send_command args ip port time_query (query_net cyc)) = Inr rsp"
    and "\<not> truthy rsp"
  shows "update_time_try args ip port loads cyc =
           (Inr (), snd (send_command args ip port time_query (query_net cyc)))"
  using assms
  by (cases "send_command args ip port time_query (query_net cyc)")
     (simp add: update_time_try_def commands_time)

lemma update_time_try_malformed:
  assumes "fst (send_command args ip port time_query (query_net cyc)) = Inr (Some text)"
    and "text \<noteq> []" and "time_remote loads text = Inl e"
  shows "update_time_try args ip port loads cyc =
           (Inl e, snd (send_command args ip port time_query (query_net cyc)))"
  using assms
  by (cases "send_command args ip port time_query (query_net cyc)")
     (simp add: update_time_try_def commands_time truthy_def)

lemma update_time_try_ok:
  assumes "fst (send_command args ip port time_query (query_net cyc)) = Inr (Some text)"
    and "text \<noteq> []" and "time_remote loads text = Inr remote"
    and "\<not> \<bar>total_microseconds remote (now cyc)\<bar> > 60000000"
  shows "update_time_try args ip port loads cyc =
           (Inr (), snd (send_command args ip port time_query (query_net cyc))
              @ [Log_info Time_ok_bypass])"
  using assms
  by (cases "send_command args ip port time_query (query_net cyc)")
     (simp add: update_time_try_def commands_time truthy_def)

lemma update_time_try_drift:
  assumes "fst (send_command args ip port time_query (query_net cyc)) = Inr (Some text)"
    and "text \<noteq> []" and "time_remote loads text = Inr remote"
    and "\<bar>total_microseconds remote (now cyc)\<bar> > 60000000"
  shows "update_time_try args ip port loads cyc =
           (case send_command args ip port (set_timezone_cmd (now cyc)) (set_net cyc) of
              (Inl e, tr2) \<Rightarrow>
                (Inl e, snd (send_command args ip port time_query (query_net cyc)) @ tr2)
            | (Inr decrypted, tr2) \<Rightarrow>
                (Inr (), snd (send_command args ip port time_query (query_net cyc)) @ tr2
                   @ [Log_info (Old_time remote), Log_info (New_time (now cyc)),
                      Log_info (Reply decrypted)]))"
  using assms
  by (cases "send_command args ip port time_query (query_net cyc)")
     (simp add: update_time_try_def commands_time truthy_def Let_def
        split: prod.splits sum.splits)

lemma update_time_try_error:
  assumes "caught (settimeout_error args)"
    and "\<forall>text e. loads text = Inl e \<longrightarrow> is_Exception e"
    and "exogenous (query_net cyc)" and "exogenous (set_net cyc)"
    and "fst (update_time_try args ip port loads cyc) = Inl e"
  shows "is_Exception e"
proof (cases "fst (send_command args ip port time_query (query_net cyc))")
  case (Inl e')
  with update_time_try_raise[OF Inl] assms(5) have "e' = e" by simp
  with Inl show ?thesis using send_command_error[OF assms(3) assms(1)] by blast
next
  case (Inr rsp)
  show ?thesis
  proof (cases "truthy rsp")
    case False
    from update_time_try_falsy[OF Inr False] assms(5) show ?thesis by simp
  next
    case True
    then obtain s where rsp: "rsp = Some s" and ne: "s \<noteq> []"
      by (auto simp: truthy_def split: option.splits)
    note q = Inr[unfolded rsp]
    show ?thesis
    proof (cases "time_remote loads s")
      case (Inl e')
      from update_time_try_malformed[OF q ne Inl] assms(5) have "e' = e" by simp
      with Inl show ?thesis using time_remote_error[OF assms(2)] by blast
    next
      case remote: (Inr remote)
      show ?thesis
      proof (cases "\<bar>total_microseconds remote (now cyc)\<bar> > 60000000")
        case False
        from update_time_try_ok[OF q ne remote False] assms(5) show ?thesis by simp
      next
        case True
        obtain r2 tr2 where s2:
          "send_command args ip port (set_timezone_cmd (now cyc)) (set_net cyc) = (r2, tr2)"
          by (cases "send_command args ip port (set_timezone_cmd (now cyc)) (set_net cyc)")
        with update_time_try_drift[OF q ne remote True] assms(5) have "r2 = Inl e"
          by (cases r2) simp_all
        with s2 show ?thesis using send_command_error[OF assms(4) assms(1), of ip port "set_timezone_cmd (now cyc)" e]
          by simp
      qed
    qed
  qed
qed

lemma update_time_returns:
  assumes "caught (settimeout_error args)"
    and "\<forall>text e. loads text = Inl e \<longrightarrow> is_Exception e"
    and "exogenous (query_net cyc)" and "exogenous (set_net cyc)"
  shows "fst (update_time args ip port loads cyc) = None"
proof (cases "update_time_try args ip port loads cyc")
  case (Pair r tr)
  show ?thesis
  proof (cases r)
    case (Inl e)
    with Pair have "is_Exception e" using update_time_try_error[OF assms, of ip port e] by simp
    with Pair Inl show ?thesis by (simp add: update_time_def)
  next
    case (Inr u)
    with Pair show ?thesis by (simp add: update_time_def)
  qed
qed

lemma no_sleep_send_command:
  "filter (\<lambda>ev. ev = Call_sleep 5) (snd (send_command args ip port cmd net)) = []"
  by (simp add: send_command_def send_command_try_def Let_def
      split: option.splits sum.splits prod.splits)

lemma no_sleep_update_time_try:
  "filter (\<lambda>ev. ev = Call_sleep 5) (snd (update_time_try args ip port loads cyc)) = []"
proof -
  have a: "\<And>cmd net r tr. send_command args ip port cmd net = (r, tr) \<Longrightarrow>
     filter (\<lambda>ev. ev = Call_sleep 5) tr = []"
    using no_sleep_send_command by (metis snd_conv)
  show ?thesis
    by (auto simp: update_time_try_def commands_time Let_def dest: a
        split: prod.splits sum.splits option.splits)
qed

lemma no_sleep_update_time:
  "filter (\<lambda>ev. ev = Call_sleep 5) (snd (update_time args ip port loads cyc)) = []"
  using no_sleep_update_time_try[of args ip port loads cyc]
  by (cases "update_time_try args ip port loads cyc")
     (auto simp: update_time_def split: sum.splits)

lemma time_updater_runs:
  assumes "caught (settimeout_error args)"
    and "\<forall>text e. loads text = Inl e \<longrightarrow> is_Exception e"
    and "\<forall>cyc\<in>set cycles. exogenous (query_net cyc) \<and> exogenous (set_net cyc)"
  shows "fst (time_updater args ip port loads cycles) = None \<and>
         length (filter (\<lambda>ev. ev = Call_sleep 5) (snd (time_updater args ip port loads cycles)))
           = length cycles"
  using assms(3)
proof (induction cycles)
  case Nil
  then show ?case by simp
next
  case (Cons cyc rest)
  have u: "fst (update_time args ip port loads cyc) = None"
    using Cons.prems by (intro update_time_returns assms(1,2)) auto
  have nosleep: "filter (\<lambda>ev. ev = Call_sleep 5) (snd (update_time args ip port loads cyc)) = []"
    by (rule no_sleep_update_time)
  from Cons show ?case using u nosleep
    by (cases "update_time args ip port loads cyc"; cases "time_updater args ip port loads rest")
       simp
qed

lemma send_command_reply:
  assumes "socket_error net = None" and "settimeout_error args = None"
    and "connect_error net = None" and "encrypt cmd = Inr msg" and "send_error net = None"
    and "close_error net = None"
  shows "send_command args ip port cmd (net\<lparr>recv_result := Inr raw\<rparr>) =
     (Inr (Some (decrypt (drop 4 (take 2048 raw)))),
      [Call_socket, Call_settimeout, Call_connect ip port, Call_settimeout_None,
       Call_send msg, Call_recv 2048, Call_close])"
  using assms by (simp add: send_command_def send_command_try_def Let_def)

text \<open>
  C1. The cipher loop of \<open>encrypt\<close> followed by \<open>decrypt\<close> gives every string of
  8-bit characters back, whatever its length and content. With the frame:
  \<open>decrypt(encrypt(x)[4:]) == x\<close> for every such string whose length the four bytes
  of the prefix can carry.
\<close>

theorem encrypt_decrypt_roundtrip:
  assumes "\<forall>c\<in>set x. c < 256"
  shows "(\<exists>c. encrypt_loop 171 [] x = Inr c \<and> decrypt c = x) \<and>
         (length x < 2 ^ 32 \<longrightarrow> (\<exists>f. encrypt x = Inr f \<and> decrypt (drop 4 f) = x))"
  using assms
  by (simp add: encrypt_loop_autokey encrypt_frame decrypt_def decrypt_loop_autokey
      autokey_roundtrip unat_of_nat_bytes)

theorem encrypt_decrypt_roundtrip_witness:
  \<open>commands ''on'' = Some (py ''{"system":{"set_relay_state":{"state":1}}}'') \<and>
   list_all (\<lambda>c. c < 256) (py ''{"system":{"set_relay_state":{"state":1}}}'') \<and>
   length (py ''{"system":{"set_relay_state":{"state":1}}}'') < 2 ^ 32 \<and>
   (\<exists>c. encrypt_loop 171 [] (py ''{"system":{"set_relay_state":{"state":1}}}'') = Inr c \<and>
      decrypt c = py ''{"system":{"set_relay_state":{"state":1}}}'') \<and>
   (\<exists>f. encrypt (py ''{"system":{"set_relay_state":{"state":1}}}'') = Inr f \<and>
      decrypt (drop 4 f) = py ''{"system":{"set_relay_state":{"state":1}}}'')\<close>
  using encrypt_decrypt_roundtrip [of \<open>py ''{"system":{"set_relay_state":{"state":1}}}''\<close>]
  by (simp add: commands_def)

text \<open>
  C5. With start key 171, the loop of \<open>encrypt\<close> appends to its result the bytes
  \<open>c\<^sub>i = p\<^sub>i XOR k\<^sub>i\<^sub>-\<^sub>1\<close>, where the key \<open>k\<^sub>i\<^sub>-\<^sub>1\<close> is 171 for the first byte and
  the previous ciphertext byte afterwards, so that \<open>encrypt\<close> returns them after its
  four bytes of prefix; \<open>decrypt\<close> returns the characters \<open>p\<^sub>i = c\<^sub>i XOR k\<^sub>i\<^sub>-\<^sub>1\<close> with
  the same keys, taken from the ciphertext.
\<close>

theorem cipher_algorithm:
  assumes "\<forall>c\<in>set x. c < 256"
  shows "(\<exists>c. (\<forall>result. encrypt_loop 171 result x = Inr (result @ c)) \<and>
            (length x < 2 ^ 32 \<longrightarrow> (\<exists>p. length p = 4 \<and> encrypt x = Inr (p @ c))) \<and>
            length c = length x \<and>
            (\<forall>i<length x. c ! i = of_nat (x ! i) XOR (if i = 0 then 171 else c ! (i - 1)))) \<and>
         length (decrypt cs) = length cs \<and>
         (\<forall>i<length cs. decrypt cs ! i = unat (cs ! i XOR (if i = 0 then 171 else cs ! (i - 1))))"
proof (intro conjI)
  let ?c = "autokey_encrypt 171 (map of_nat x)"
  have "\<forall>result. encrypt_loop 171 result x = Inr (result @ ?c)"
    using assms by (simp add: encrypt_loop_autokey)
  moreover have "length x < 2 ^ 32 \<longrightarrow> (\<exists>p. length p = 4 \<and> encrypt x = Inr (p @ ?c))"
    using assms by (simp add: encrypt_frame)
  moreover have "length ?c = length x" by (simp add: length_autokey_encrypt)
  moreover have "\<forall>i<length x. ?c ! i = of_nat (x ! i) XOR (if i = 0 then 171 else ?c ! (i - 1))"
    by (simp add: autokey_encrypt_nth)
  ultimately show "\<exists>c. (\<forall>result. encrypt_loop 171 result x = Inr (result @ c)) \<and>
      (length x < 2 ^ 32 \<longrightarrow> (\<exists>p. length p = 4 \<and> encrypt x = Inr (p @ c))) \<and>
      length c = length x \<and>
      (\<forall>i<length x. c ! i = of_nat (x ! i) XOR (if i = 0 then 171 else c ! (i - 1)))"
    by blast
next
  show "length (decrypt cs) = length cs"
    by (simp add: decrypt_def decrypt_loop_autokey length_autokey_decrypt)
next
  show "\<forall>i<length cs. decrypt cs ! i = unat (cs ! i XOR (if i = 0 then 171 else cs ! (i - 1)))"
    by (simp add: decrypt_def decrypt_loop_autokey length_autokey_decrypt autokey_decrypt_nth)
qed

theorem cipher_algorithm_witness:
  "list_all (\<lambda>c. c < 256) [104, 105 :: nat] \<and> length [104, 105 :: nat] < 2 ^ 32 \<and>
   encrypt [104, 105] = Inr ([0, 0, 0, 2] @ [195, 170]) \<and>
   (195 :: byte) = of_nat 104 XOR 171 \<and> (170 :: byte) = of_nat 105 XOR 195 \<and>
   decrypt [195, 170] = [104, 105] \<and>
   unat ((195 :: byte) XOR 171) = 104 \<and> unat ((170 :: byte) XOR 195) = 105"
  using cipher_algorithm [of "[104, 105]" "[195, 170]"]
  by (simp add: encrypt_def pack_I_def decrypt_def)

text \<open>
  C6. The cipher preserves length: for every string \<open>x\<close> of 8-bit characters the loop
  of \<open>encrypt\<close> produces exactly \<open>len(x)\<close> ciphertext bytes, whatever the length; in
  the result of \<open>encrypt\<close>, which puts the four bytes of the frame's length prefix
  before them, the ciphertext \<open>encrypt(x)[4:]\<close> has \<open>len(x)\<close> bytes.
\<close>

theorem encrypt_length:
  assumes "\<forall>c\<in>set x. c < 256"
  shows "(\<exists>c. encrypt_loop 171 [] x = Inr c \<and> length c = length x) \<and>
         (length x < 2 ^ 32 \<longrightarrow>
            (\<exists>f. encrypt x = Inr f \<and> length (drop 4 f) = length x \<and>
               length f = length x + 4))"
  using assms by (simp add: encrypt_loop_autokey encrypt_frame length_autokey_encrypt)

theorem encrypt_length_witness:
  "list_all (\<lambda>c. c < 256) [97 :: nat] \<and> length [97 :: nat] < 2 ^ 32 \<and>
   (\<exists>c. encrypt_loop 171 [] [97] = Inr c \<and> length c = length [97 :: nat]) \<and>
   (\<exists>f. encrypt [97] = Inr f \<and> length (drop 4 f) = length [97 :: nat] \<and>
      length f = length [97 :: nat] + 4)"
  using encrypt_length [of "[97]"] by simp

text \<open>
  C7. The first four bytes of \<open>encrypt(x)\<close> read as a big-endian unsigned number give
  the number of characters of the plaintext \<open>x\<close>, and the rest is the ciphertext of
  \<open>x\<close> under the autokey scheme started at 171.
\<close>

theorem framing_format:
  assumes "\<forall>c\<in>set x. c < 256" and "length x < 2 ^ 32"
  shows "\<exists>f. encrypt x = Inr f \<and> unpack_I (take 4 f) = length x \<and>
           drop 4 f = autokey_encrypt 171 (map of_nat x)"
proof -
  have "encrypt x = Inr ([of_nat (length x div 2 ^ 24), of_nat (length x div 2 ^ 16),
            of_nat (length x div 2 ^ 8), of_nat (length x)]
          @ autokey_encrypt 171 (map of_nat x))"
    using assms by (rule encrypt_frame)
  then show ?thesis using unpack_I_pack [OF assms(2)] by simp
qed

theorem framing_format_witness:
  \<open>list_all (\<lambda>c. c < 256) (py ''{}'') \<and> length (py ''{}'') < 2 ^ 32 \<and>
   (\<exists>f. encrypt (py ''{}'') = Inr f \<and> unpack_I (take 4 f) = length (py ''{}'') \<and>
      drop 4 f = [208, 173])\<close>
  using framing_format [of \<open>py ''{}''\<close>] by (simp add: Let_def)

text \<open>
  C9. \<open>encrypt\<close> is a function of its argument alone: equal inputs give equal results,
  and the first ciphertext byte of every message is its first character XOR 171, since
  each call starts its key at 171 and keeps no key from an earlier call.
\<close>

theorem encrypt_deterministic:
  "x = y \<Longrightarrow> encrypt x = encrypt y \<and>
     (\<forall>c s f. x = c # s \<longrightarrow> encrypt x = Inr f \<longrightarrow> f ! 4 = of_nat (171 XOR c))"
proof (intro conjI allI impI)
  assume "x = y"
  then show "encrypt x = encrypt y" by simp
next
  fix c s f
  assume x: "x = c # s" and f: "encrypt x = Inr f"
  from f obtain p where p: "pack_I (length x) = Inr p" and l: "encrypt_loop 171 p x = Inr f"
    by (auto simp: encrypt_def split: sum.splits)
  from p have len: "length p = 4" by (auto simp: pack_I_def split: if_splits)
  from l x have "encrypt_loop (171 XOR c) (p @ [of_nat (171 XOR c)]) s = Inr f"
    by (simp add: Let_def split: if_splits)
  then obtain t where "f = (p @ [of_nat (171 XOR c)]) @ t"
    using encrypt_loop_extends by blast
  then show "f ! 4 = of_nat (171 XOR c)" using len by (simp add: nth_append)
qed

theorem encrypt_deterministic_witness:
  \<open>py ''{"a":1}'' = py ''{"a":1}'' \<and> encrypt (py ''{"a":1}'') = encrypt (py ''{"a":1}'') \<and>
   encrypt (py ''{"a":1}'') = Inr [0, 0, 0, 7, 208, 242, 147, 177, 139, 186, 199] \<and>
   (208 :: byte) = of_nat (171 XOR 123)\<close>
  using encrypt_deterministic [of \<open>py ''{"a":1}''\<close> \<open>py ''{"a":1}''\<close>]
  by (simp add: encrypt_def pack_I_def)

lemma encrypt_time_query:
  "encrypt time_query = Inr [0, 0, 0, 24, 208, 242, 134, 239, 130, 231, 197, 255, 132, 166,
     193, 164, 208, 143, 251, 146, 255, 154, 184, 130, 249, 132, 249, 132]"
  by (simp add: encrypt_def pack_I_def)

text \<open>
  C4 as stated fails: after a refused connection the value \<open>send_command\<close> returns
  is \<open>None\<close>, the same for any host and port; it carries no context.
\<close>

theorem send_command_error_result_counterexample:
  "fst (send_command default_args plug_ip 9999 time_query refused_net) = Inr None \<and>
   fst (send_command default_args (py ''10.0.0.7'') 1234 time_query refused_net) = Inr None"
  by (simp add: send_command_def send_command_try_def Let_def)

text \<open>
  C4, amended. When \<open>connect\<close>, \<open>send\<close> or \<open>recv\<close> raises a socket error,
  \<open>send_command\<close> does not raise: it logs an error line that names the host and the
  port and returns \<open>None\<close>. The trace shows one \<open>connect\<close> and nothing after the
  failing call but the log line: nothing is retried.
\<close>

theorem send_command_socket_error:
  assumes "socket_error net = None" and "settimeout_error args = None"
  shows "(connect_error net = Some (OSError err) \<longrightarrow>
            send_command args ip port cmd net =
              (Inr None, [Call_socket, Call_settimeout, Call_connect ip port,
                 Log_error (Could_not_connect ip port)])) \<and>
         (connect_error net = None \<and> encrypt cmd = Inr msg \<and>
            send_error net = Some (OSError err) \<longrightarrow>
            send_command args ip port cmd net =
              (Inr None, [Call_socket, Call_settimeout, Call_connect ip port,
                 Call_settimeout_None, Call_send msg,
                 Log_error (Could_not_connect ip port)])) \<and>
         (connect_error net = None \<and> encrypt cmd = Inr msg \<and> send_error net = None \<and>
            recv_result net = Inl (OSError err) \<longrightarrow>
            send_command args ip port cmd net =
              (Inr None, [Call_socket, Call_settimeout, Call_connect ip port,
                 Call_settimeout_None, Call_send msg, Call_recv 2048,
                 Log_error (Could_not_connect ip port)]))"
  using assms by (simp add: send_command_def send_command_try_def Let_def)

theorem send_command_socket_error_witness:
  "socket_error refused_net = None \<and> settimeout_error default_args = None \<and>
   connect_error refused_net = Some (OSError ConnectionRefused) \<and>
   send_command default_args plug_ip 9999 time_query refused_net
     = (Inr None, [Call_socket, Call_settimeout, Call_connect plug_ip 9999,
          Log_error (Could_not_connect plug_ip 9999)])"
  using send_command_socket_error [of refused_net default_args ConnectionRefused plug_ip 9999
      time_query]
  by simp

text \<open>
  C8. Whatever bytes \<open>recv\<close> returns, \<open>send_command\<close> drops the first four without
  looking at them and decrypts the rest (of the at most 2048 bytes read): two replies
  that differ only in their first four bytes give the same result and the same trace.
\<close>

theorem unframing:
  assumes "socket_error net = None" and "settimeout_error args = None"
    and "connect_error net = None" and "encrypt cmd = Inr msg" and "send_error net = None"
    and "close_error net = None"
  shows "fst (send_command args ip port cmd (net\<lparr>recv_result := Inr raw\<rparr>)) =
           Inr (Some (decrypt (take 2044 (drop 4 raw)))) \<and>
         (length prefix = 4 \<and> length prefix' = 4 \<longrightarrow>
            send_command args ip port cmd (net\<lparr>recv_result := Inr (prefix @ body)\<rparr>) =
            send_command args ip port cmd (net\<lparr>recv_result := Inr (prefix' @ body)\<rparr>))"
  using assms by (simp add: send_command_reply drop_take)

theorem unframing_witness:
  "fst (send_command default_args plug_ip 9999 time_query
          (quiet_net\<lparr>recv_result := Inr [0, 0, 0, 2, 208, 173]\<rparr>)) = Inr (Some [123, 125]) \<and>
   send_command default_args plug_ip 9999 time_query
          (quiet_net\<lparr>recv_result := Inr ([0, 0, 0, 2] @ [208, 173])\<rparr>) =
   send_command default_args plug_ip 9999 time_query
          (quiet_net\<lparr>recv_result := Inr ([255, 255, 255, 255] @ [208, 173])\<rparr>)"
proof -
  note u = unframing [of quiet_net default_args time_query _ plug_ip 9999,
      OF _ _ _ encrypt_time_query]
  have a: "fst (send_command default_args plug_ip 9999 time_query
          (quiet_net\<lparr>recv_result := Inr [0, 0, 0, 2, 208, 173]\<rparr>)) = Inr (Some [123, 125])"
    using u [of "[0, 0, 0, 2, 208, 173]" "[]" "[]" "[]"] by (simp add: decrypt_def)
  have b: "send_command default_args plug_ip 9999 time_query
          (quiet_net\<lparr>recv_result := Inr ([0, 0, 0, 2] @ [208, 173])\<rparr>) =
   send_command default_args plug_ip 9999 time_query
          (quiet_net\<lparr>recv_result := Inr ([255, 255, 255, 255] @ [208, 173])\<rparr>)"
    using u [of "[]" "[0, 0, 0, 2]" "[255, 255, 255, 255]" "[208, 173]"] by simp
  from a b show ?thesis by (rule conjI)
qed

lemma send_command_success:
  assumes "socket_error net = None" and "settimeout_error args = None"
    and "connect_error net = None" and "encrypt cmd = Inr msg" and "send_error net = None"
    and "close_error net = None" and "recv_result net = Inr raw"
  shows "send_command args ip port cmd net =
     (Inr (Some (decrypt (drop 4 (take 2048 raw)))),
      [Call_socket, Call_settimeout, Call_connect ip port, Call_settimeout_None,
       Call_send msg, Call_recv 2048, Call_close])"
  using assms by (simp add: send_command_def send_command_try_def Let_def)

lemma update_time_falsy:
  assumes "fst (send_command args ip port time_query (query_net cyc)) = Inr rsp"
    and "\<not> truthy rsp"
  shows "update_time args ip port loads cyc =
           (None, snd (send_command args ip port time_query (query_net cyc)))"
  by (simp add: update_time_def update_time_try_falsy [OF assms])

lemma update_time_raise:
  assumes "fst (send_command args ip port time_query (query_net cyc)) = Inl e"
    and "is_Exception e"
  shows "update_time args ip port loads cyc =
           (None, snd (send_command args ip port time_query (query_net cyc))
              @ [Log_exception e])"
  using assms(2) by (simp add: update_time_def update_time_try_raise [OF assms(1)])

lemma update_time_malformed:
  assumes "fst (send_command args ip port time_query (query_net cyc)) = Inr (Some s)"
    and "s \<noteq> []" and "time_remote loads s = Inl e" and "is_Exception e"
  shows "update_time args ip port loads cyc =
           (None, snd (send_command args ip port time_query (query_net cyc))
              @ [Log_exception e])"
  using assms(4) by (simp add: update_time_def update_time_try_malformed [OF assms(1,2,3)])

text \<open>
  C10. A reply of four bytes or fewer makes \<open>send_command\<close> return the empty string,
  a result and not \<open>None\<close>. The empty string and \<open>None\<close> are both false, so in
  \<open>update_time\<close> the cycle ends after the one call of \<open>send_command\<close>, as it does
  after a transport failure: nothing more is sent or logged.
\<close>

theorem short_reply_skips_cycle:
  assumes "socket_error net = None" and "settimeout_error args = None"
    and "connect_error net = None" and "send_error net = None" and "close_error net = None"
    and "recv_result net = Inr raw" and "length raw \<le> 4"
  shows "(\<forall>cmd msg. encrypt cmd = Inr msg \<longrightarrow>
            fst (send_command args ip port cmd net) = Inr (Some [])) \<and>
         \<not> truthy (Some []) \<and> \<not> truthy None \<and>
         (query_net cyc = net \<longrightarrow>
            update_time args ip port loads cyc =
              (None, snd (send_command args ip port time_query net)) \<and>
            send_command_calls (snd (update_time args ip port loads cyc)) = 1) \<and>
         (fst (send_command args ip port time_query (query_net cyc')) = Inr None \<longrightarrow>
            update_time args ip port loads cyc' =
              (None, snd (send_command args ip port time_query (query_net cyc'))) \<and>
            send_command_calls (snd (update_time args ip port loads cyc')) = 1)"
proof (intro conjI allI impI)
  fix cmd msg
  assume "encrypt cmd = Inr msg"
  then show "fst (send_command args ip port cmd net) = Inr (Some [])"
    using send_command_success [OF assms(1,2,3) _ assms(4,5,6), of cmd msg ip port] assms(7)
    by (simp add: decrypt_def)
next
  show "\<not> truthy (Some [])" "\<not> truthy None" by (simp_all add: truthy_def)
next
  assume q: "query_net cyc = net"
  have "fst (send_command args ip port time_query (query_net cyc)) = Inr (Some [])"
    using send_command_success [OF assms(1,2,3) encrypt_time_query assms(4,5,6), of ip port]
      assms(7) q
    by (simp add: decrypt_def)
  then have u: "update_time args ip port loads cyc =
      (None, snd (send_command args ip port time_query (query_net cyc)))"
    by (rule update_time_falsy) (simp add: truthy_def)
  then show "update_time args ip port loads cyc =
      (None, snd (send_command args ip port time_query net))" using q by simp
  from u show "send_command_calls (snd (update_time args ip port loads cyc)) = 1"
    by (simp only: snd_conv send_command_calls_one)
next
  assume f: "fst (send_command args ip port time_query (query_net cyc')) = Inr None"
  then show u: "update_time args ip port loads cyc' =
      (None, snd (send_command args ip port time_query (query_net cyc')))"
    by (rule update_time_falsy) (simp add: truthy_def)
  then show "send_command_calls (snd (update_time args ip port loads cyc')) = 1"
    by (simp only: snd_conv send_command_calls_one)
qed

theorem short_reply_skips_cycle_witness:
  "fst (send_command default_args plug_ip 9999 time_query
          (quiet_net\<lparr>recv_result := Inr [0, 0, 0, 0]\<rparr>)) = Inr (Some []) \<and>
   update_time default_args plug_ip 9999 (device_says 12 0 0)
       \<lparr>query_net = quiet_net\<lparr>recv_result := Inr [0, 0, 0, 0]\<rparr>, now = noon,
        set_net = quiet_net\<rparr> =
     (None, snd (send_command default_args plug_ip 9999 time_query
          (quiet_net\<lparr>recv_result := Inr [0, 0, 0, 0]\<rparr>))) \<and>
   send_command_calls (snd (update_time default_args plug_ip 9999 (device_says 12 0 0)
       \<lparr>query_net = quiet_net\<lparr>recv_result := Inr [0, 0, 0, 0]\<rparr>, now = noon,
        set_net = quiet_net\<rparr>)) = 1"
  using short_reply_skips_cycle [of "quiet_net\<lparr>recv_result := Inr [0, 0, 0, 0]\<rparr>"
      default_args "[0, 0, 0, 0]" plug_ip 9999
      "\<lparr>query_net = quiet_net\<lparr>recv_result := Inr [0, 0, 0, 0]\<rparr>, now = noon,
        set_net = quiet_net\<rparr>" "device_says 12 0 0"]
    encrypt_time_query
  by (simp add: send_command_calls_one)

text \<open>
  C3. When every failure of the network, of the parser and of the timeout argument is
  an exception of the class \<open>Exception\<close>, no cycle raises and the loop runs every cycle
  it is given. A cycle whose query fails in the transport, raises, or gets a reply that
  cannot be parsed into a time ends after the query: the exception is logged and no
  correction is sent.
\<close>

theorem time_sync_fault_tolerance:
  assumes "caught (settimeout_error args)"
    and "\<forall>text e. loads text = Inl e \<longrightarrow> is_Exception e"
    and "\<forall>cyc\<in>set cycles. exogenous (query_net cyc) \<and> exogenous (set_net cyc)"
  shows "fst (time_updater args ip port loads cycles) = None \<and>
         length (filter (\<lambda>ev. ev = Call_sleep 5) (snd (time_updater args ip port loads cycles)))
           = length cycles \<and>
         (\<forall>cyc\<in>set cycles.
            fst (update_time args ip port loads cyc) = None \<and>
            (fst (send_command args ip port time_query (query_net cyc)) = Inr None \<longrightarrow>
               update_time args ip port loads cyc =
                 (None, snd (send_command args ip port time_query (query_net cyc)))) \<and>
            (\<forall>e. fst (send_command args ip port time_query (query_net cyc)) = Inl e \<longrightarrow>
               update_time args ip port loads cyc =
                 (None, snd (send_command args ip port time_query (query_net cyc))
                    @ [Log_exception e])) \<and>
            (\<forall>s e. fst (send_command args ip port time_query (query_net cyc)) = Inr (Some s)
                 \<and> s \<noteq> [] \<and> time_remote loads s = Inl e \<longrightarrow>
               update_time args ip port loads cyc =
                 (None, snd (send_command args ip port time_query (query_net cyc))
                    @ [Log_exception e])))"
proof (intro conjI ballI allI impI)
  show "fst (time_updater args ip port loads cycles) = None"
    using time_updater_runs [OF assms] by simp
  show "length (filter (\<lambda>ev. ev = Call_sleep 5) (snd (time_updater args ip port loads cycles)))
           = length cycles"
    using time_updater_runs [OF assms] by simp
next
  fix cyc :: cycle
  assume "cyc \<in> set cycles"
  then show "fst (update_time args ip port loads cyc) = None"
    using assms by (intro update_time_returns) auto
next
  fix cyc :: cycle
  assume "fst (send_command args ip port time_query (query_net cyc)) = Inr None"
  then show "update_time args ip port loads cyc =
      (None, snd (send_command args ip port time_query (query_net cyc)))"
    by (rule update_time_falsy) (simp add: truthy_def)
next
  fix cyc :: cycle and e
  assume c: "cyc \<in> set cycles"
    and e: "fst (send_command args ip port time_query (query_net cyc)) = Inl e"
  from c assms(3) have "exogenous (query_net cyc)" by simp
  then have "is_Exception e" using assms(1) e by (rule send_command_error)
  with e show "update_time args ip port loads cyc =
      (None, snd (send_command args ip port time_query (query_net cyc)) @ [Log_exception e])"
    by (rule update_time_raise)
next
  fix cyc :: cycle and s e
  assume h: "fst (send_command args ip port time_query (query_net cyc)) = Inr (Some s)
      \<and> s \<noteq> [] \<and> time_remote loads s = Inl e"
  then have "is_Exception e" using time_remote_error [OF assms(2)] by blast
  with h show "update_time args ip port loads cyc =
      (None, snd (send_command args ip port time_query (query_net cyc)) @ [Log_exception e])"
    by (intro update_time_malformed) auto
qed

theorem time_sync_fault_tolerance_witness:
  "caught (settimeout_error default_args) \<and> exogenous refused_net \<and> exogenous braces_net \<and>
   exogenous quiet_net \<and>
   fst (time_updater default_args plug_ip 9999 loads_empty_object
     [\<lparr>query_net = refused_net, now = noon, set_net = quiet_net\<rparr>,
      \<lparr>query_net = braces_net, now = noon, set_net = quiet_net\<rparr>]) = None \<and>
   update_time default_args plug_ip 9999 loads_empty_object
      \<lparr>query_net = refused_net, now = noon, set_net = quiet_net\<rparr> =
     (None, [Call_socket, Call_settimeout, Call_connect plug_ip 9999,
        Log_error (Could_not_connect plug_ip 9999)]) \<and>
   update_time default_args plug_ip 9999 loads_empty_object
      \<lparr>query_net = braces_net, now = noon, set_net = quiet_net\<rparr> =
     (None, [Call_socket, Call_settimeout, Call_connect plug_ip 9999, Call_settimeout_None,
        Call_send [0, 0, 0, 24, 208, 242, 134, 239, 130, 231, 197, 255, 132, 166,
          193, 164, 208, 143, 251, 146, 255, 154, 184, 130, 249, 132, 249, 132],
        Call_recv 2048, Call_close, Log_exception KeyError])"
  using time_sync_fault_tolerance [of default_args loads_empty_object
     "[\<lparr>query_net = refused_net, now = noon, set_net = quiet_net\<rparr>,
      \<lparr>query_net = braces_net, now = noon, set_net = quiet_net\<rparr>]" plug_ip 9999]
  by (simp add: caught_def exogenous_def send_command_def send_command_try_def Let_def
      encrypt_time_query [simplified] decrypt_def time_remote_def and_then_def
      del: time_updater.simps)

lemma digits_chars: "\<forall>c\<in>set (digits n). c < 256"
proof (induction n rule: digits.induct)
  case (1 n)
  show ?case
  proof (cases "n < 10")
    case True
    then show ?thesis by (simp add: digits.simps [of n])
  next
    case False
    then have "\<forall>c\<in>set (digits (n div 10)). c < 256" by (rule 1)
    moreover have "48 + n mod 10 < 256" by arith
    ultimately show ?thesis using False by (simp add: digits.simps [of n])
  qed
qed

lemma digits_length: "length (digits n) \<le> Suc n"
proof (induction n rule: digits.induct)
  case (1 n)
  show ?case
  proof (cases "n < 10")
    case True
    then show ?thesis by (simp add: digits.simps [of n])
  next
    case False
    then have "length (digits (n div 10)) \<le> Suc (n div 10)" by (rule 1)
    moreover have "Suc (n div 10) < n" using False by arith
    ultimately show ?thesis using False by (simp add: digits.simps [of n])
  qed
qed

lemma str_int_chars: "\<forall>c\<in>set (str_int n). c < 256"
  using digits_chars by (simp add: str_int_def)

lemma str_int_length: "0 \<le> n \<Longrightarrow> n \<le> 9999 \<Longrightarrow> length (str_int n) \<le> 10000"
  using digits_length [of "nat n"] by (simp add: str_int_def)

lemma days_in_month_le: "1 \<le> m \<Longrightarrow> m \<le> 12 \<Longrightarrow> days_in_month y m \<le> 31"
proof -
  assume "1 \<le> m" "m \<le> 12"
  then have "m = 1 \<or> m = 2 \<or> m = 3 \<or> m = 4 \<or> m = 5 \<or> m = 6 \<or> m = 7 \<or> m = 8 \<or> m = 9
      \<or> m = 10 \<or> m = 11 \<or> m = 12" by arith
  then show ?thesis by (auto simp: days_in_month_def)
qed

lemma set_timezone_cmd_encrypt:
  assumes "valid_datetime t"
  shows "\<exists>msg. encrypt (set_timezone_cmd t) = Inr msg"
proof -
  have c: "\<forall>c\<in>set (set_timezone_cmd t). c < 256"
    using str_int_chars by (simp add: set_timezone_cmd_def ball_Un)
  have d: "day t \<le> 9999" using assms days_in_month_le [of "month t" "year t"]
    by (simp add: valid_datetime_def)
  have "length (set_timezone_cmd t) \<le> 100000"
    using assms d str_int_length [of "year t"] str_int_length [of "month t"]
      str_int_length [of "day t"] str_int_length [of "hour t"] str_int_length [of "minute t"]
      str_int_length [of "second t"]
    by (simp add: set_timezone_cmd_def valid_datetime_def)
  then have "length (set_timezone_cmd t) < 2 ^ 32" by simp
  with c show ?thesis by (simp add: encrypt_frame)
qed

lemma send_command_Some_timeout:
  "fst (send_command args ip port cmd net) = Inr (Some s) \<Longrightarrow> settimeout_error args = None"
  by (auto simp: send_command_def send_command_try_def Let_def
      split: option.splits sum.splits if_splits)

lemma send_command_sends:
  assumes "socket_error net = None" and "settimeout_error args = None"
    and "connect_error net = None" and "encrypt cmd = Inr msg"
  shows "Call_send msg \<in> set (snd (send_command args ip port cmd net))"
  using assms
  by (simp add: send_command_def send_command_try_def Let_def
      split: option.splits sum.splits)

lemma update_time_ok:
  assumes "fst (send_command args ip port time_query (query_net cyc)) = Inr (Some s)"
    and "s \<noteq> []" and "time_remote loads s = Inr remote"
    and "\<not> \<bar>total_microseconds remote (now cyc)\<bar> > 60000000"
  shows "update_time args ip port loads cyc =
           (None, snd (send_command args ip port time_query (query_net cyc))
              @ [Log_info Time_ok_bypass])"
  by (simp add: update_time_def update_time_try_ok [OF assms])

lemma update_time_drift:
  assumes "fst (send_command args ip port time_query (query_net cyc)) = Inr (Some s)"
    and "s \<noteq> []" and "time_remote loads s = Inr remote"
    and "\<bar>total_microseconds remote (now cyc)\<bar> > 60000000"
  shows "\<exists>rest. snd (update_time args ip port loads cyc) =
           snd (send_command args ip port time_query (query_net cyc))
           @ snd (send_command args ip port (set_timezone_cmd (now cyc)) (set_net cyc)) @ rest
         \<and> send_command_calls rest = 0"
  by (cases "send_command args ip port (set_timezone_cmd (now cyc)) (set_net cyc)")
     (auto simp: update_time_def update_time_try_drift [OF assms] send_command_calls_def
        split: sum.splits)

lemma braces_reply:
  "fst (send_command default_args plug_ip 9999 time_query (query_net braces_cycle))
     = Inr (Some [123, 125])"
  by (simp add: send_command_def send_command_try_def Let_def encrypt_time_query [simplified]
      decrypt_def)

lemma device_says_time:
  "0 \<le> hh \<Longrightarrow> hh \<le> 23 \<Longrightarrow> 0 \<le> mm \<Longrightarrow> mm \<le> 59 \<Longrightarrow> 0 \<le> ss \<Longrightarrow> ss \<le> 59 \<Longrightarrow>
   time_remote (device_says hh mm ss) text = Inr (on_first_of_march hh mm ss)"
  by (simp add: time_remote_def and_then_def datetime_new_def valid_datetime_def
      days_in_month_def is_leap_def Let_def)

text \<open>
  C2. In a cycle whose query got a non-empty reply that parses into a time, a second
  call of \<open>send_command\<close>, with the time-set command, is made exactly when the device
  time and the local time differ by more than 60 seconds (60000000 microseconds);
  otherwise the cycle logs that the time is fine and sends nothing. With a network that
  connects, the framed time-set command is what is sent. At a difference of exactly 60
  seconds or of none there is no correction, at 61 seconds there is one.
\<close>

theorem drift_decision:
  assumes "fst (send_command args ip port time_query (query_net cyc)) = Inr (Some s)"
    and "s \<noteq> []" and "time_remote loads s = Inr remote"
  shows "(send_command_calls (snd (update_time args ip port loads cyc)) = 2 \<longleftrightarrow>
            \<bar>total_microseconds remote (now cyc)\<bar> > 60 * 1000000) \<and>
         (\<not> \<bar>total_microseconds remote (now cyc)\<bar> > 60 * 1000000 \<longrightarrow>
            update_time args ip port loads cyc =
              (None, snd (send_command args ip port time_query (query_net cyc))
                 @ [Log_info Time_ok_bypass])) \<and>
         (\<bar>total_microseconds remote (now cyc)\<bar> > 60 * 1000000 \<longrightarrow>
            (\<exists>rest. snd (update_time args ip port loads cyc) =
               snd (send_command args ip port time_query (query_net cyc))
               @ snd (send_command args ip port (set_timezone_cmd (now cyc)) (set_net cyc))
               @ rest)) \<and>
         (\<bar>total_microseconds remote (now cyc)\<bar> > 60 * 1000000 \<and> valid_datetime (now cyc) \<and>
            socket_error (set_net cyc) = None \<and> connect_error (set_net cyc) = None \<longrightarrow>
            (\<exists>msg. encrypt (set_timezone_cmd (now cyc)) = Inr msg \<and>
               Call_send msg \<in> set (snd (update_time args ip port loads cyc))))"
proof (cases "\<bar>total_microseconds remote (now cyc)\<bar> > 60000000")
  case False
  note u = update_time_ok [OF assms False]
  have "send_command_calls (snd (update_time args ip port loads cyc)) = 1"
    by (simp add: u send_command_calls_append send_command_calls_one)
       (simp add: send_command_calls_def)
  with False u show ?thesis by simp
next
  case True
  from update_time_drift [OF assms True] obtain rest where
    r: "snd (update_time args ip port loads cyc) =
           snd (send_command args ip port time_query (query_net cyc))
           @ snd (send_command args ip port (set_timezone_cmd (now cyc)) (set_net cyc)) @ rest"
    and z: "send_command_calls rest = 0" by blast
  have two: "send_command_calls (snd (update_time args ip port loads cyc)) = 2"
    by (simp add: r z send_command_calls_append send_command_calls_one)
  have sent: "\<exists>msg. encrypt (set_timezone_cmd (now cyc)) = Inr msg \<and>
               Call_send msg \<in> set (snd (update_time args ip port loads cyc))"
    if v: "valid_datetime (now cyc)" and so: "socket_error (set_net cyc) = None"
      and co: "connect_error (set_net cyc) = None"
  proof -
    from set_timezone_cmd_encrypt [OF v] obtain msg where
      m: "encrypt (set_timezone_cmd (now cyc)) = Inr msg" by blast
    have "Call_send msg \<in> set (snd (send_command args ip port (set_timezone_cmd (now cyc))
        (set_net cyc)))"
      using so send_command_Some_timeout [OF assms(1)] co m by (rule send_command_sends)
    with m show ?thesis by (auto simp: r)
  qed
  from True two r sent show ?thesis by auto
qed

theorem drift_decision_witness:
  "update_time default_args plug_ip 9999 (device_says 12 1 0) braces_cycle =
     (None, snd (send_command default_args plug_ip 9999 time_query braces_net)
        @ [Log_info Time_ok_bypass]) \<and>
   update_time default_args plug_ip 9999 (device_says 12 0 0) braces_cycle =
     (None, snd (send_command default_args plug_ip 9999 time_query braces_net)
        @ [Log_info Time_ok_bypass]) \<and>
   send_command_calls (snd (update_time default_args plug_ip 9999 (device_says 12 1 1)
     braces_cycle)) = 2 \<and>
   send_command_calls (snd (update_time default_args plug_ip 9999 (device_says 11 58 59)
     braces_cycle)) = 2 \<and>
   send_command_calls (snd (update_time default_args plug_ip 9999 (device_says 11 59 0)
     braces_cycle)) \<noteq> 2"
proof -
  have ne: "[123, 125] \<noteq> ([] :: pystr)" by simp
  note d = drift_decision [OF braces_reply ne device_says_time]
  note ev = total_microseconds_def ymd2ord_def days_before_year_def days_before_month_def
    is_leap_def
  have a: "update_time default_args plug_ip 9999 (device_says 12 1 0) braces_cycle =
     (None, snd (send_command default_args plug_ip 9999 time_query braces_net)
        @ [Log_info Time_ok_bypass])"
    using d [of 12 1 0, THEN conjunct2, THEN conjunct1] by (simp add: ev)
  have b: "update_time default_args plug_ip 9999 (device_says 12 0 0) braces_cycle =
     (None, snd (send_command default_args plug_ip 9999 time_query braces_net)
        @ [Log_info Time_ok_bypass])"
    using d [of 12 0 0, THEN conjunct2, THEN conjunct1] by (simp add: ev)
  have c: "send_command_calls (snd (update_time default_args plug_ip 9999 (device_says 12 1 1)
     braces_cycle)) = 2"
    using d [of 12 1 1, THEN conjunct1] by (simp add: ev)
  have e: "send_command_calls (snd (update_time default_args plug_ip 9999 (device_says 11 58 59)
     braces_cycle)) = 2"
    using d [of 11 58 59, THEN conjunct1] by (simp add: ev)
  have f: "send_command_calls (snd (update_time default_args plug_ip 9999 (device_says 11 59 0)
     braces_cycle)) \<noteq> 2"
    using d [of 11 59 0, THEN conjunct1] by (simp add: ev)
  from a b c e f show ?thesis by (intro conjI)
qed

end
